theory Spec2Isabelle
  imports Main "HOL-Library.Sublist" "HOL-Library.Word"
begin

section \<open>Time\<close>

text \<open>
  A \<open>time.Time\<close> is modelled by its instant, in nanoseconds since the epoch, as an
  unbounded integer: the instant of a Go \<open>time.Time\<close> is a 64-bit count of seconds plus a
  nanosecond part, and no reading of the wall clock shifted by a \<open>time.Duration\<close> leaves
  that range. A \<open>time.Duration\<close> is a signed 64-bit count of nanoseconds; \<open>Time.Sub\<close>
  saturates at the least and the greatest Duration, which is written out in \<open>time_Sub\<close>.
\<close>

type_synonym time = int
type_synonym Duration = int

definition minDuration :: Duration where
  "minDuration = - (2 ^ 63)"

definition maxDuration :: Duration where
  "maxDuration = 2 ^ 63 - 1"

definition Minute :: Duration where
  "Minute = 60 * 1000000000"

definition Hour :: Duration where
  "Hour = 60 * Minute"

definition time_Add :: "time \<Rightarrow> Duration \<Rightarrow> time" where
  "time_Add t d = t + d"

definition time_Sub :: "time \<Rightarrow> time \<Rightarrow> Duration" where
  "time_Sub t u =
     (if t - u < minDuration then minDuration
      else if maxDuration < t - u then maxDuration
      else t - u)"

section \<open>Alert frequency buckets (server package, alert list)\<close>

text \<open>
  \<open>types.NullTime\<close> is a time with a validity flag. \<open>alert.DateCreated()\<close> returns a
  \<open>NullTime\<close> or an error; the alert is modelled by that result, the only part of it that
  \<open>getAlertFrequency\<close> reads.
\<close>

record NullTime =
  Valid :: bool
  Time :: time

record alert =
  DateCreated :: "string + NullTime"

record alertFrequency =
  Since :: Duration
  Name :: string
  Count :: nat
  HaveMore :: bool

text \<open>
  The body of the \<open>for _, alert := range alerts\<close> loop of \<open>getAlertFrequency\<close>, with the
  counter as an accumulator. The counter is a Go \<open>uint\<close>; it is incremented at most once per
  element of a slice, whose length fits an \<open>int\<close>, so it never wraps and is a \<open>nat\<close> here.
\<close>

fun count_loop :: "time \<Rightarrow> Duration \<Rightarrow> alert list \<Rightarrow> nat \<Rightarrow> nat" where
  "count_loop now since [] count = count"
| "count_loop now since (a # alerts) count =
     (case DateCreated a of
        Inl err \<Rightarrow> count_loop now since alerts count
      | Inr createdAt \<Rightarrow>
          if Valid createdAt \<and> time_Sub now (Time createdAt) < since
          then count_loop now since alerts (count + 1)
          else count_loop now since alerts count)"

text \<open>\<open>getAlertFrequency\<close>; \<open>now\<close> is the reading of \<open>time.Now()\<close> on its first line.\<close>

definition getAlertFrequency :: "time \<Rightarrow> alert list \<Rightarrow> string \<Rightarrow> Duration \<Rightarrow> alertFrequency" where
  "getAlertFrequency now alerts name since =
     (let count = count_loop now since alerts 0
      in \<lparr> Since = since, Name = name, Count = count,
           HaveMore = (count > 0 \<and> int count \<ge> int (length alerts)) \<rparr>)"

text \<open>An alert is counted in a window when its timestamp is there, valid and recent enough.\<close>

definition counted :: "time \<Rightarrow> Duration \<Rightarrow> alert \<Rightarrow> bool" where
  "counted now since a =
     (case DateCreated a of
        Inl err \<Rightarrow> False
      | Inr createdAt \<Rightarrow> Valid createdAt \<and> time_Sub now (Time createdAt) < since)"

text \<open>An alert whose timestamp cannot be obtained, or is not valid.\<close>

definition undated :: "alert \<Rightarrow> bool" where
  "undated a = (case DateCreated a of Inl err \<Rightarrow> True | Inr createdAt \<Rightarrow> \<not> Valid createdAt)"

section \<open>The expiring cache (cache package)\<close>

type_synonym bytes = "8 word list"

record expiringBits =
  Set :: time
  Expires :: time
  Bits :: bytes

text \<open>
  The store is an \<open>lru.Cache\<close> of the groupcache library: a list of entries, most
  recently used first, one entry per key, and a bound \<open>MaxEntries\<close> on their number
  where zero means no bound. \<open>Add\<close> moves an existing key to the front and replaces its
  value; a new key is pushed on the front and, when the bound is set and exceeded, the entry at
  the back is removed. \<open>Get\<close> moves the entry it finds to the front.
\<close>

record lru =
  MaxEntries :: int
  ll :: "(string \<times> expiringBits) list"

definition lru_New :: "int \<Rightarrow> lru" where
  "lru_New maxEntries = \<lparr> MaxEntries = maxEntries, ll = [] \<rparr>"

definition lru_RemoveOldest :: "lru \<Rightarrow> lru" where
  "lru_RemoveOldest c = c\<lparr> ll := butlast (ll c) \<rparr>"

definition lru_Add :: "string \<Rightarrow> expiringBits \<Rightarrow> lru \<Rightarrow> lru" where
  "lru_Add key v c =
     (case map_of (ll c) key of
        Some old \<Rightarrow> c\<lparr> ll := (key, v) # filter (\<lambda>e. fst e \<noteq> key) (ll c) \<rparr>
      | None \<Rightarrow>
          let c' = c\<lparr> ll := (key, v) # ll c \<rparr>
          in if MaxEntries c' \<noteq> 0 \<and> int (length (ll c')) > MaxEntries c'
             then lru_RemoveOldest c' else c')"

definition lru_Get :: "string \<Rightarrow> lru \<Rightarrow> expiringBits option \<times> lru" where
  "lru_Get key c =
     (case map_of (ll c) key of
        Some v \<Rightarrow> (Some v, c\<lparr> ll := (key, v) # filter (\<lambda>e. fst e \<noteq> key) (ll c) \<rparr>)
      | None \<Rightarrow> (None, c))"

definition lru_Remove :: "string \<Rightarrow> lru \<Rightarrow> lru" where
  "lru_Remove key c = c\<lparr> ll := filter (\<lambda>e. fst e \<noteq> key) (ll c) \<rparr>"

text \<open>
  The gob and gzip libraries, at the four places where the package can see them fail:
  \<open>Encoder.Encode\<close> and the gzip writer's \<open>Close\<close> in \<open>enc\<close>,
  \<open>gzip.NewReader\<close> and \<open>Decoder.Decode\<close> in \<open>Get\<close>. \<open>Inl\<close> is the error.
  \<open>gob_Decode\<close> takes the value that \<open>val\<close> points to before the call.
\<close>

record 'v codec =
  gob_Encode :: "'v \<Rightarrow> string + bytes"
  gzip_Close :: "bytes \<Rightarrow> string + bytes"
  gzip_NewReader :: "bytes \<Rightarrow> string + bytes"
  gob_Decode :: "bytes \<Rightarrow> 'v \<Rightarrow> string + 'v"

text \<open>\<open>enc\<close>: \<open>Inl\<close> is the panic.\<close>

definition enc :: "'v codec \<Rightarrow> 'v \<Rightarrow> string + bytes" where
  "enc cd data =
     (case gob_Encode cd data of
        Inl err \<Rightarrow> Inl err
      | Inr stream \<Rightarrow>
          (case gzip_Close cd stream of
             Inl err \<Rightarrow> Inl err
           | Inr buf \<Rightarrow> Inr buf))"

datatype cache_error = errNotFound | expired | decodeError string

datatype 'v get_result = Panicked string | Failed cache_error | Got time 'v

text \<open>
  \<open>Cache.NewCache\<close>, \<open>Cache.Get\<close> and \<open>Cache.Set\<close>. \<open>now\<close> is the reading of the
  wall clock that the call makes (\<open>time.Since\<close> in \<open>Get\<close>, \<open>time.Now().UTC()\<close> in
  \<open>Set\<close>). The store only ever holds the \<open>expiringBits\<close> that \<open>Set\<close> puts there, so the
  failed cast of \<open>Get\<close> has no branch. The result of \<open>Get\<close> is the value decoded into
  \<open>val\<close> with the stored time, an error, or a panic, and the store after the call.
\<close>

definition NewCache :: "int \<Rightarrow> lru" where
  "NewCache n = lru_New n"

definition Cache_Get :: "'v codec \<Rightarrow> time \<Rightarrow> string \<Rightarrow> 'v \<Rightarrow> lru \<Rightarrow> 'v get_result \<times> lru" where
  "Cache_Get cd now key val c =
     (case lru_Get key c of
        (None, c1) \<Rightarrow> (Failed errNotFound, c1)
      | (Some e, c1) \<Rightarrow>
          if time_Sub now (Expires e) > 0 then (Failed expired, lru_Remove key c1)
          else
            (case gzip_NewReader cd (Bits e) of
               Inl err \<Rightarrow> (Panicked err, c1)
             | Inr reader \<Rightarrow>
                 (case gob_Decode cd reader val of
                    Inl err \<Rightarrow> (Failed (decodeError err), c1)
                  | Inr v \<Rightarrow> (Got (Set e) v, c1))))"

definition Cache_Set :: "'v codec \<Rightarrow> time \<Rightarrow> string \<Rightarrow> 'v \<Rightarrow> Duration \<Rightarrow> lru \<Rightarrow> string + lru" where
  "Cache_Set cd now key val timeout c =
     (case enc cd val of
        Inl err \<Rightarrow> Inl err
      | Inr bits \<Rightarrow>
          Inr (lru_Add key \<lparr> Set = now, Expires = time_Add now timeout, Bits = bits \<rparr> c))"

text \<open>
  A codec to run the cache on concrete values: the values are byte strings, stored as they
  are.
\<close>

definition plain_codec :: "bytes codec" where
  "plain_codec =
     \<lparr> gob_Encode = Inr, gzip_Close = Inr, gzip_NewReader = Inr,
       gob_Decode = (\<lambda>stream val. Inr stream) \<rparr>"

text \<open>Every entry of the store expires after it was stored.\<close>

definition expires_after_set :: "lru \<Rightarrow> bool" where
  "expires_after_set c = list_all (\<lambda>(key, e). Set e < Expires e) (ll c)"

section \<open>Errors, users and request values shared by the views and server packages\<close>

text \<open>
  A Go \<open>error\<close>. The two sentinels are compared by identity in the sources
  (\<open>err == twilio.NoMoreResults\<close>, \<open>config.PermissionDenied\<close>), so each is a constructor
  of its own; \<open>RestError\<close> is a \<open>*rest.Error\<close> with its status code and title;
  \<open>ErrorString\<close> is any other error, by its message (\<open>errors.New\<close>).
\<close>

datatype go_error =
    NoMoreResults
  | PermissionDenied
  | RestError nat string
  | ErrorString string

text \<open>
  \<open>err.Error()\<close>. The messages of the two sentinels are set by their libraries and are not
  in the sources: \<open>txt\<close> gives them.
\<close>

fun Error :: "(go_error \<Rightarrow> string) \<Rightarrow> go_error \<Rightarrow> string" where
  "Error txt (ErrorString msg) = msg"
| "Error txt (RestError code title) = title"
| "Error txt NoMoreResults = txt NoMoreResults"
| "Error txt PermissionDenied = txt PermissionDenied"

text \<open>
  A \<open>config.User\<close>, by its capabilities: \<open>u.CanViewAlerts()\<close> and
  \<open>u.CanViewMedia()\<close>, which the sources ask it for, and the permission
  \<open>can_view_calls\<close> of the configuration file.
\<close>

record user =
  CanViewAlerts :: bool
  CanViewMedia :: bool
  CanViewCalls :: bool

text \<open>\<open>url.Values\<close> is a \<open>map[string][]string\<close>; the secret key is a \<open>*[32]byte\<close>.\<close>

type_synonym Values = "string \<rightharpoonup> string list"
type_synonym secret = bytes

definition Values_Set :: "string \<Rightarrow> string \<Rightarrow> Values \<Rightarrow> Values" where
  "Values_Set k v vals = vals(k \<mapsto> [v])"

section \<open>Media URLs (views package)\<close>

text \<open>
  What \<open>Client.GetMediaURLs\<close> calls outside the package: the Twilio client's
  \<open>Messages.GetMediaURLs\<close>, \<open>services.Opaque\<close>, which seals a string under the key
  with a fresh random nonce (the state \<open>'g\<close> of the random source is passed through), and
  \<open>String\<close> and \<open>url.Parse\<close> of the \<open>net/url\<close> library, over a type \<open>'url\<close> of
  parsed URLs.
\<close>

record ('url, 'g) views_env =
  Messages_GetMediaURLs :: "string \<Rightarrow> Values \<Rightarrow> go_error + 'url list"
  Opaque :: "'g \<Rightarrow> string \<Rightarrow> secret \<Rightarrow> string \<times> 'g"
  url_String :: "'url \<Rightarrow> string"
  url_Parse :: "string \<Rightarrow> go_error + 'url"

text \<open>A request that reaches the upstream API from the views package.\<close>

datatype media_call = Call_GetMediaURLs string Values

definition mediaUrlsFilters :: Values where
  "mediaUrlsFilters = Map.empty(''PageSize'' \<mapsto> [''100''])"

text \<open>
  The loop \<open>for i, u := range urls\<close> of \<open>GetMediaURLs\<close>: \<open>urls\<close> is what is left of the
  slice, \<open>i\<close> the index, \<open>opaqueImages\<close> the slice of pointers made before the loop
  (\<open>None\<close> is the nil pointer). A failed \<open>url.Parse\<close> returns from the function.
\<close>

fun opaque_loop ::
  "('url, 'g) views_env \<Rightarrow> secret \<Rightarrow> 'url list \<Rightarrow> nat \<Rightarrow> 'url option list \<Rightarrow> 'g
     \<Rightarrow> (go_error + 'url option list) \<times> 'g" where
  "opaque_loop env key [] i opaqueImages g = (Inr opaqueImages, g)"
| "opaque_loop env key (u # urls) i opaqueImages g =
     (case Opaque env g (url_String env u) key of
        (tok, g') \<Rightarrow>
          (case url_Parse env (''/images/'' @ tok) of
             Inl err \<Rightarrow> (Inl err, g')
           | Inr opaqueURL \<Rightarrow>
               opaque_loop env key urls (i + 1) (opaqueImages[i := Some opaqueURL]) g'))"

text \<open>
  \<open>Client.GetMediaURLs\<close>: the result, the upstream requests made, and the random source
  after the call.
\<close>

definition GetMediaURLs ::
  "('url, 'g) views_env \<Rightarrow> secret \<Rightarrow> 'g \<Rightarrow> user \<Rightarrow> string
     \<Rightarrow> (go_error + 'url option list) \<times> media_call list \<times> 'g" where
  "GetMediaURLs env secretKey g u sid =
     (if CanViewMedia u = False then (Inl PermissionDenied, [], g)
      else
        (case Messages_GetMediaURLs env sid mediaUrlsFilters of
           Inl err \<Rightarrow> (Inl err, [Call_GetMediaURLs sid mediaUrlsFilters], g)
         | Inr urls \<Rightarrow>
             (case opaque_loop env secretKey urls 0 (replicate (length urls) None) g of
                (res, g') \<Rightarrow> (res, [Call_GetMediaURLs sid mediaUrlsFilters], g'))))"

section \<open>Single calls (views package)\<close>

text \<open>
  What \<open>Client.GetCall\<close> calls: the Twilio client's \<open>Calls.Get\<close>, over a type
  \<open>'call\<close> of upstream records, and \<open>NewCall\<close> of the views package, which is not among
  the sources: it takes the upstream record, the client's \<open>*config.Permission\<close> and the
  user, and returns the record redacted for that user, or an error.
\<close>

record ('call, 'perm, 'view) calls_env =
  Calls_Get :: "string \<Rightarrow> go_error + 'call"
  NewCall :: "'call \<Rightarrow> 'perm \<Rightarrow> user \<Rightarrow> go_error + 'view"

datatype calls_call = Call_Calls_Get string

text \<open>\<open>Client.GetCall\<close>: the result and the upstream requests made.\<close>

definition GetCall ::
  "('call, 'perm, 'view) calls_env \<Rightarrow> 'perm \<Rightarrow> user \<Rightarrow> string
     \<Rightarrow> (go_error + 'view) \<times> calls_call list" where
  "GetCall env permission u sid =
     (case Calls_Get env sid of
        Inl err \<Rightarrow> (Inl err, [Call_Calls_Get sid])
      | Inr call \<Rightarrow> (NewCall env call permission u, [Call_Calls_Get sid]))"

section \<open>The alert list handler (server package)\<close>

text \<open>
  Modelled from the spec: \<open>views.AlertPage\<close> is not among the sources. A page is an
  ordered sequence of records with at most one forward and at most one backward continuation
  cursor; the cursors are \<open>types.NullString\<close> values, \<open>None\<close> when not valid.
  \<open>new(views.AlertPage)\<close> is the page with no record and no cursor.
\<close>

record AlertPage =
  Alerts :: "alert list"
  NextPageURI :: "string option"
  PreviousPageURI :: "string option"

definition new_AlertPage :: AlertPage where
  "new_AlertPage = \<lparr> Alerts = [], NextPageURI = None, PreviousPageURI = None \<rparr>"

type_synonym location = string

record alertListData =
  Page :: AlertPage
  EncryptedNextPage :: string
  EncryptedPreviousPage :: string
  Loc :: location
  Query :: Values
  Err :: string
  Freq :: "alertFrequency list"

record baseData =
  Duration :: Duration
  Data :: alertListData

text \<open>
  What the handler writes: one of the error responses of the \<open>rest\<close> library, or the
  status passed to \<open>w.WriteHeader\<close> followed by the base template rendered on the data.
  The status is written before the template runs, so a failure of \<open>render\<close> does not
  change it; the rendering itself is not modelled.
\<close>

datatype response =
    ServerError go_error
  | Forbidden string
  | NotFound
  | Rendered nat baseData

fun status_code :: "response \<Rightarrow> nat" where
  "status_code (ServerError err) = 500"
| "status_code (Forbidden title) = 403"
| "status_code NotFound = 404"
| "status_code (Rendered code data) = code"

record request =
  URL_Query :: Values
  Header :: Values

text \<open>
  The context of an upstream request: the request's own, bounded by three seconds
  (\<open>getContext\<close>), or \<open>context.Background()\<close> for the prefetch.
\<close>

datatype ctx = RequestCtx | Background

text \<open>The two operations of \<open>views.Client\<close> that the handler calls.\<close>

record views_Client =
  GetAlertPageInRange :: "ctx \<Rightarrow> user \<Rightarrow> time \<Rightarrow> time \<Rightarrow> Values \<Rightarrow> go_error + AlertPage"
  GetNextAlertPageInRange :: "ctx \<Rightarrow> user \<Rightarrow> time \<Rightarrow> time \<Rightarrow> string \<Rightarrow> go_error + AlertPage"

datatype alert_call =
    Call_GetAlertPageInRange ctx user time time Values
  | Call_GetNextAlertPageInRange ctx user time time string

text \<open>The client's answer to a call.\<close>

fun answer :: "views_Client \<Rightarrow> alert_call \<Rightarrow> go_error + AlertPage" where
  "answer c (Call_GetAlertPageInRange cx u startTime endTime vals) =
     GetAlertPageInRange c cx u startTime endTime vals"
| "answer c (Call_GetNextAlertPageInRange cx u startTime endTime nextPage) =
     GetNextAlertPageInRange c cx u startTime endTime nextPage"

record alertListServer =
  Client :: views_Client
  PageSize :: "64 word"
  MaxResourceAge :: Duration
  LocationFinder :: "request \<Rightarrow> location"
  secretKey :: secret

text \<open>
  The functions and the constant of the server, config and twilio packages that the handler
  uses and that are not among the sources. \<open>getTimes\<close> either writes an error response
  itself or returns the two bounds; \<open>getNext\<close> opens the \<open>next\<close> parameter of the query
  and returns its cleartext, the empty string when there is none, or the error of opening it;
  \<open>setPageFilters\<close> and \<open>setNextPageValsOnQuery\<close> update the values passed to them;
  \<open>getEncryptedPage\<close> seals a cursor and uses the random source.
\<close>

record 'g server_env =
  GetUser :: "request \<Rightarrow> user option"
  getTimes :: "request \<Rightarrow> string \<Rightarrow> string \<Rightarrow> location \<Rightarrow> Values \<Rightarrow> response + time \<times> time"
  getNext :: "Values \<Rightarrow> secret \<Rightarrow> go_error + string"
  setNextPageValsOnQuery :: "string \<Rightarrow> Values \<Rightarrow> Values"
  setPageFilters :: "Values \<Rightarrow> Values \<Rightarrow> go_error + Values"
  getEncryptedPage :: "'g \<Rightarrow> string option \<Rightarrow> secret \<Rightarrow> string \<times> 'g"
  MonitorBaseURL :: string
  sentinel_text :: "go_error \<Rightarrow> string"

text \<open>\<open>strings.Replace(s, old, new, 1)\<close>: the first occurrence of \<open>old\<close> is replaced.\<close>

fun strings_Replace1 :: "string \<Rightarrow> string \<Rightarrow> string \<Rightarrow> string" where
  "strings_Replace1 [] old new = (if old = [] then new else [])"
| "strings_Replace1 (c # s) old new =
     (if prefix old (c # s) then new @ drop (length old) (c # s)
      else c # strings_Replace1 s old new)"

text \<open>\<open>strconv.FormatUint(n, 10)\<close>.\<close>

fun FormatUint :: "nat \<Rightarrow> string" where
  "FormatUint n =
     (if n < 10 then [''0123456789'' ! n]
      else FormatUint (n div 10) @ [''0123456789'' ! (n mod 10)])"

declare FormatUint.simps [simp del]

definition StatusBadRequest :: nat where
  "StatusBadRequest = 400"

text \<open>\<open>renderError\<close>; its error is never nil where the handler calls it.\<close>

definition renderError ::
  "'g server_env \<Rightarrow> alertListServer \<Rightarrow> request \<Rightarrow> nat \<Rightarrow> Values \<Rightarrow> go_error \<Rightarrow> response" where
  "renderError env s r code query err =
     (let str = strings_Replace1 (Error (sentinel_text env) err) ''twilio: '' ''''
      in Rendered code
           \<lparr> Duration = 0,
             Data = \<lparr> Page = new_AlertPage, EncryptedNextPage = '''',
                      EncryptedPreviousPage = '''', Loc = LocationFinder s r, Query = query,
                      Err = str, Freq = [] \<rparr> \<rparr>)"

text \<open>
  The second half of \<open>ServeHTTP\<close>, from \<open>if err == twilio.NoMoreResults\<close> to the end:
  \<open>fetched\<close> is the \<open>page, err\<close> that the upstream call returned. \<open>clock\<close> gives the
  readings of the wall clock in the order the handler takes them: \<open>start\<close>, the
  \<open>time.Since(start)\<close> of the duration, and one reading in each call of
  \<open>getAlertFrequency\<close>. The result is the response, the upstream calls made (the prefetch
  of the goroutine) and the random source.
\<close>

definition serve_page ::
  "'g server_env \<Rightarrow> alertListServer \<Rightarrow> (nat \<Rightarrow> time) \<Rightarrow> 'g \<Rightarrow> request \<Rightarrow> user \<Rightarrow> Values
     \<Rightarrow> time \<Rightarrow> time \<Rightarrow> string \<Rightarrow> go_error + AlertPage
     \<Rightarrow> response \<times> alert_call list \<times> 'g" where
  "serve_page env s clock g r u query startTime endTime next fetched =
     (case (case fetched of Inl err \<Rightarrow> if err = NoMoreResults then Inr new_AlertPage else Inl err
                           | Inr page \<Rightarrow> Inr page) of
        Inl err \<Rightarrow>
          ((case err of
              RestError code title \<Rightarrow>
                if code = 400 then renderError env s r StatusBadRequest query err
                else if code = 404 then NotFound
                else ServerError err
            | _ \<Rightarrow> ServerError err), [], g)
      | Inr page \<Rightarrow>
          (let prefetch =
                 (case NextPageURI page of
                    Some n \<Rightarrow> [Call_GetNextAlertPageInRange Background u startTime endTime n]
                  | None \<Rightarrow> []);
               duration = time_Sub (clock 1) (clock 0)
           in case getEncryptedPage env g (NextPageURI page) (secretKey s) of
                (encNext, g1) \<Rightarrow>
                  (case getEncryptedPage env g1 (PreviousPageURI page) (secretKey s) of
                     (encPrev, g2) \<Rightarrow>
                       (let ad = \<lparr> Page = page, EncryptedNextPage = encNext,
                                   EncryptedPreviousPage = encPrev, Loc = LocationFinder s r,
                                   Query = query, Err = '''', Freq = [] \<rparr>;
                            ad' = (if next = '''' then
                                     (let alerts = Alerts page
                                      in ad\<lparr> Freq :=
                                           [getAlertFrequency (clock 2) alerts ''5 minutes'' (5 * Minute),
                                            getAlertFrequency (clock 3) alerts ''hour'' Hour,
                                            getAlertFrequency (clock 4) alerts ''day'' (24 * Hour),
                                            getAlertFrequency (clock 5) alerts ''3 days'' (24 * Hour)] \<rparr>)
                                   else ad)
                        in (Rendered 200 \<lparr> Duration = duration, Data = ad' \<rparr>, prefetch, g2)))))"

text \<open>
  \<open>alertListServer.ServeHTTP\<close>: the response, the upstream calls in the order they are
  made, and the random source after the request.
\<close>

definition ServeHTTP ::
  "'g server_env \<Rightarrow> alertListServer \<Rightarrow> (nat \<Rightarrow> time) \<Rightarrow> 'g \<Rightarrow> request
     \<Rightarrow> response \<times> alert_call list \<times> 'g" where
  "ServeHTTP env s clock g r =
     (case GetUser env r of
        None \<Rightarrow> (ServerError (ErrorString ''No user available''), [], g)
      | Some u \<Rightarrow>
          if \<not> CanViewAlerts u then (Forbidden ''Access denied'', [], g)
          else
            (let query = URL_Query r; loc = LocationFinder s r
             in case getTimes env r ''alert-start'' ''alert-end'' loc query of
                  Inl written \<Rightarrow> (written, [], g)
                | Inr (startTime, endTime) \<Rightarrow>
                    (case getNext env query (secretKey s) of
                       Inl nextErr \<Rightarrow>
                         (renderError env s r StatusBadRequest query
                            (ErrorString (''Could not decrypt `next` query parameter: ''
                                            @ Error (sentinel_text env) nextErr)), [], g)
                     | Inr next \<Rightarrow>
                         if next \<noteq> '''' then
                           if \<not> prefix (MonitorBaseURL env) next then
                             (renderError env s r StatusBadRequest query
                                (ErrorString ''Invalid next page uri''), [], g)
                           else
                             (case serve_page env s clock g r u
                                     (setNextPageValsOnQuery env next query) startTime endTime next
                                     (GetNextAlertPageInRange (Client s) RequestCtx u startTime endTime next) of
                                (resp, calls, g') \<Rightarrow>
                                  (resp, Call_GetNextAlertPageInRange RequestCtx u startTime endTime next
                                           # calls, g'))
                         else
                           (let vals = Values_Set ''PageSize'' (FormatUint (unat (PageSize s))) Map.empty
                            in case setPageFilters env query vals of
                                 Inl filterErr \<Rightarrow>
                                   (renderError env s r StatusBadRequest query filterErr, [], g)
                               | Inr vals' \<Rightarrow>
                                   (case serve_page env s clock g r u query startTime endTime next
                                           (GetAlertPageInRange (Client s) RequestCtx u startTime endTime vals') of
                                      (resp, calls, g') \<Rightarrow>
                                        (resp, Call_GetAlertPageInRange RequestCtx u startTime endTime vals'
                                                 # calls, g'))))))"

section \<open>A small instance to run the definitions on\<close>

text \<open>
  An instance of what lies outside the two packages, to evaluate them on concrete requests.
  Sealing a string prefixes it with \<open>ok:\<close> and steps the random source, a counter; a token
  opens when it has that prefix. The user is read from the \<open>Authorization\<close> header:
  \<open>eng\<close> may view everything, \<open>support\<close> neither alerts nor media nor calls. The upstream API
  holds one alert, created at the instant \<open>24 * Hour\<close>, on a first page with no cursor, and
  has no page after it.
\<close>

definition demo_views_env :: "(string, nat) views_env" where
  "demo_views_env =
     \<lparr> Messages_GetMediaURLs =
         (\<lambda>sid vals. Inr [''https://api.twilio.com/Media/ME1'', ''https://api.twilio.com/Media/ME2'']),
       Opaque = (\<lambda>g msg key. (''ok:'' @ msg, Suc g)),
       url_String = (\<lambda>u. u),
       url_Parse = Inr \<rparr>"

definition eng :: user where
  "eng = \<lparr> CanViewAlerts = True, CanViewMedia = True, CanViewCalls = True \<rparr>"

definition support :: user where
  "support = \<lparr> CanViewAlerts = False, CanViewMedia = False, CanViewCalls = False \<rparr>"

text \<open>
  The upstream API answers every request for a call with a record of that sid, and
  \<open>NewCall\<close> refuses the record to a user who may not view calls.
\<close>

definition demo_calls_env :: "(string, unit, string) calls_env" where
  "demo_calls_env =
     \<lparr> Calls_Get = (\<lambda>sid. Inr (''call '' @ sid)),
       NewCall =
         (\<lambda>call permission u. if CanViewCalls u = False then Inl PermissionDenied else Inr call) \<rparr>"

definition demo_key :: secret where
  "demo_key = replicate 32 0"

definition demo_open :: "Values \<Rightarrow> secret \<Rightarrow> go_error + string" where
  "demo_open query key =
     (case query ''next'' of
        Some (tok # rest) \<Rightarrow>
          if tok = '''' then Inr ''''
          else if prefix ''ok:'' tok then Inr (drop 3 tok)
          else Inl (ErrorString ''invalid token'')
      | _ \<Rightarrow> Inr '''')"

definition demo_env :: "nat server_env" where
  "demo_env =
     \<lparr> GetUser =
         (\<lambda>r. if Header r ''Authorization'' = Some [''eng''] then Some eng
              else if Header r ''Authorization'' = Some [''support''] then Some support
              else None),
       getTimes = (\<lambda>r startName endName loc query. Inr (0, 72 * Hour)),
       getNext = demo_open,
       setNextPageValsOnQuery = (\<lambda>next query. query),
       setPageFilters = (\<lambda>query vals. Inr vals),
       getEncryptedPage =
         (\<lambda>g cursor key. case cursor of None \<Rightarrow> ('''', g) | Some c \<Rightarrow> (''ok:'' @ c, Suc g)),
       MonitorBaseURL = ''https://monitor.twilio.com/v1'',
       sentinel_text = (\<lambda>err. ''twilio: sentinel'') \<rparr>"

definition demo_page :: AlertPage where
  "demo_page =
     \<lparr> Alerts = [\<lparr> DateCreated = Inr \<lparr> Valid = True, Time = 24 * Hour \<rparr> \<rparr>],
       NextPageURI = None, PreviousPageURI = None \<rparr>"

definition demo_server :: alertListServer where
  "demo_server =
     \<lparr> Client =
         \<lparr> GetAlertPageInRange = (\<lambda>cx u startTime endTime vals. Inr demo_page),
           GetNextAlertPageInRange = (\<lambda>cx u startTime endTime nextPage. Inl NoMoreResults) \<rparr>,
       PageSize = 50,
       MaxResourceAge = 720 * Hour,
       LocationFinder = (\<lambda>r. ''America/Los_Angeles''),
       secretKey = demo_key \<rparr>"

text \<open>A request with the given user name and, when \<open>tok\<close> is given, that \<open>next\<close> parameter.\<close>

definition demo_request :: "string \<Rightarrow> string option \<Rightarrow> request" where
  "demo_request name tok =
     \<lparr> URL_Query = (case tok of None \<Rightarrow> Map.empty | Some t \<Rightarrow> Map.empty(''next'' \<mapsto> [t])),
       Header = Map.empty(''Authorization'' \<mapsto> [name]) \<rparr>"

section \<open>Properties of the frequency buckets\<close>

lemma count_loop_filter:
  "count_loop now since alerts count = count + length (filter (counted now since) alerts)"
  by (induction alerts arbitrary: count) (auto simp: counted_def split: sum.splits)

lemma Count_filter:
  "Count (getAlertFrequency now alerts name since) = length (filter (counted now since) alerts)"
  by (simp add: getAlertFrequency_def Let_def count_loop_filter)

lemma undated_not_counted: "undated a \<Longrightarrow> \<not> counted now since a"
  by (auto simp: undated_def counted_def split: sum.splits)

lemma length_filter_all_iff:
  "length (filter P xs) = length xs \<longleftrightarrow> list_all P xs"
proof (induction xs)
  case Nil
  show ?case by simp
next
  case (Cons x xs)
  have le: "length (filter P xs) \<le> length xs" by simp
  show ?case
  proof (cases "P x")
    case True
    with Cons show ?thesis by simp
  next
    case False
    from le have "length (filter P xs) \<noteq> Suc (length xs)" by linarith
    with False show ?thesis by simp
  qed
qed

text \<open>
  C9. The claim: for every list of alerts and every window, the bucket's saturated flag
  (\<open>HaveMore\<close>) is true exactly when the bucket's count equals the number of records
  examined. It fails on the empty page: the count equals the number of records, zero, and the
  flag is false, because \<open>getAlertFrequency\<close> also asks for \<open>count > 0\<close>.
\<close>

theorem HaveMore_empty_page_counterexample:
  "Count (getAlertFrequency 0 [] ''day'' (24 * Hour)) = length ([] :: alert list)
   \<and> HaveMore (getAlertFrequency 0 [] ''day'' (24 * Hour)) = False"
  by (simp add: getAlertFrequency_def)

text \<open>
  C9, amended. For every list of alerts and every window, the saturated flag is true exactly
  when the list is not empty and the bucket's count equals the number of records examined,
  that is, when the page is not empty and every record of it is counted in the window.
\<close>

theorem HaveMore_iff_nonempty_and_saturated:
  "HaveMore (getAlertFrequency now alerts name since)
     = (alerts \<noteq> [] \<and> Count (getAlertFrequency now alerts name since) = length alerts)
   \<and> HaveMore (getAlertFrequency now alerts name since)
     = (alerts \<noteq> [] \<and> list_all (counted now since) alerts)"
proof -
  let ?n = "length (filter (counted now since) alerts)"
  have le: "?n \<le> length alerts" by simp
  have hm: "HaveMore (getAlertFrequency now alerts name since) = (0 < ?n \<and> length alerts \<le> ?n)"
    by (simp add: getAlertFrequency_def Let_def count_loop_filter)
  have eq: "(0 < ?n \<and> length alerts \<le> ?n) = (alerts \<noteq> [] \<and> ?n = length alerts)"
    using le by (cases alerts) auto
  show ?thesis
    unfolding hm eq Count_filter length_filter_all_iff by simp
qed

theorem HaveMore_iff_nonempty_and_saturated_witness:
  "HaveMore (getAlertFrequency (3 * Minute)
       [\<lparr> DateCreated = Inr \<lparr> Valid = True, Time = 2 * Minute \<rparr> \<rparr>] ''hour'' Hour) = True
   \<and> Count (getAlertFrequency (3 * Minute)
       [\<lparr> DateCreated = Inr \<lparr> Valid = True, Time = 2 * Minute \<rparr> \<rparr>] ''hour'' Hour) = 1
   \<and> list_all (counted (3 * Minute) Hour)
       [\<lparr> DateCreated = Inr \<lparr> Valid = True, Time = 2 * Minute \<rparr> \<rparr>]"
  using HaveMore_iff_nonempty_and_saturated
    [of "3 * Minute" "[\<lparr> DateCreated = Inr \<lparr> Valid = True, Time = 2 * Minute \<rparr> \<rparr>]" "''hour''" Hour]
  by (simp add: getAlertFrequency_def counted_def time_Sub_def minDuration_def maxDuration_def
      Minute_def Hour_def)

text \<open>
  C10. For every list of alerts and every window, an alert whose creation timestamp cannot
  be obtained or is not valid is never counted (the count is that of the page without such
  alerts), yet it is part of the length that the count is compared with: a page that holds
  such an alert has a count below its length and a saturated flag that is false.
\<close>

theorem undated_alert_never_counted:
  assumes "a \<in> set alerts" and "undated a"
  shows "Count (getAlertFrequency now alerts name since)
           = Count (getAlertFrequency now (filter (\<lambda>b. \<not> undated b) alerts) name since)
         \<and> Count (getAlertFrequency now alerts name since) < length alerts
         \<and> HaveMore (getAlertFrequency now alerts name since) = False"
proof -
  let ?f = "getAlertFrequency now alerts name since"
  have conj: "(\<lambda>b. \<not> undated b \<and> counted now since b) = counted now since"
    using undated_not_counted by blast
  have same: "Count ?f = Count (getAlertFrequency now (filter (\<lambda>b. \<not> undated b) alerts) name since)"
    by (simp add: Count_filter conj)
  have "\<not> counted now since a"
    using assms(2) by (rule undated_not_counted)
  with assms(1) have "\<not> list_all (counted now since) alerts"
    by (auto simp: list_all_iff)
  then have ne: "length (filter (counted now since) alerts) \<noteq> length alerts"
    by (simp add: length_filter_all_iff)
  have "length (filter (counted now since) alerts) \<le> length alerts" by simp
  with ne have less: "Count ?f < length alerts"
    unfolding Count_filter by linarith
  then have "HaveMore ?f = False"
    by (simp add: getAlertFrequency_def Let_def Count_filter count_loop_filter)
  with same less show ?thesis by simp
qed

theorem undated_alert_never_counted_witness:
  "Count (getAlertFrequency (3 * Minute)
       [\<lparr> DateCreated = Inl ''permission denied'' \<rparr>,
        \<lparr> DateCreated = Inr \<lparr> Valid = True, Time = 2 * Minute \<rparr> \<rparr>] ''hour'' Hour) = 1
   \<and> HaveMore (getAlertFrequency (3 * Minute)
       [\<lparr> DateCreated = Inl ''permission denied'' \<rparr>,
        \<lparr> DateCreated = Inr \<lparr> Valid = True, Time = 2 * Minute \<rparr> \<rparr>] ''hour'' Hour) = False"
proof -
  let ?bad = "\<lparr> DateCreated = Inl ''permission denied'' \<rparr>"
  let ?good = "\<lparr> DateCreated = Inr \<lparr> Valid = True, Time = 2 * Minute \<rparr> \<rparr>"
  have m: "?bad \<in> set [?bad, ?good]" by simp
  have u: "undated ?bad" by (simp add: undated_def)
  have c: "Count (getAlertFrequency (3 * Minute) [?bad, ?good] ''hour'' Hour) = 1"
    by (simp add: getAlertFrequency_def time_Sub_def minDuration_def maxDuration_def
        Minute_def Hour_def)
  from undated_alert_never_counted [OF m u, of "3 * Minute" "''hour''" Hour] c
  show ?thesis by simp
qed

section \<open>Properties of the cache\<close>

lemma time_Sub_pos: "0 < time_Sub t u \<longleftrightarrow> u < t"
  by (auto simp: time_Sub_def minDuration_def maxDuration_def)

lemma map_of_filter_other: "map_of (filter (\<lambda>e. fst e \<noteq> key) xs) key = None"
  by (induction xs) auto

lemma lru_Add_front:
  assumes "0 \<le> MaxEntries c"
  shows "\<exists>rest. ll (lru_Add key v c) = (key, v) # rest"
proof (cases "map_of (ll c) key")
  case (Some old)
  then show ?thesis by (simp add: lru_Add_def)
next
  case None
  show ?thesis
  proof (cases "ll c")
    case Nil
    with None assms show ?thesis
      by (auto simp: lru_Add_def Let_def lru_RemoveOldest_def)
  next
    case (Cons x xs)
    with None show ?thesis
      by (simp add: lru_Add_def Let_def lru_RemoveOldest_def)
  qed
qed

lemma lru_Add_MaxEntries: "MaxEntries (lru_Add key v c) = MaxEntries c"
  by (simp add: lru_Add_def Let_def lru_RemoveOldest_def split: option.splits)

lemma lru_Add_entries: "set (ll (lru_Add key v c)) \<subseteq> insert (key, v) (set (ll c))"
  by (auto simp: lru_Add_def Let_def lru_RemoveOldest_def split: option.splits if_splits
      dest: in_set_butlastD)

lemma lru_Get_front:
  assumes "ll c = (key, v) # rest"
  shows "lru_Get key c = (Some v, c\<lparr> ll := (key, v) # filter (\<lambda>e. fst e \<noteq> key) rest \<rparr>)"
  using assms by (simp add: lru_Get_def)

lemma Cache_Get_absent:
  assumes "map_of (ll c) key = None"
  shows "Cache_Get cd now key val c = (Failed errNotFound, c)"
  using assms by (simp add: Cache_Get_def lru_Get_def)

lemma Cache_Set_stores:
  assumes "0 \<le> MaxEntries c" and "enc cd val = Inr bits"
  shows "\<exists>rest. Cache_Set cd now key val timeout c
           = Inr (c\<lparr> ll := (key, \<lparr> Set = now, Expires = time_Add now timeout, Bits = bits \<rparr>) # rest \<rparr>)"
proof -
  let ?e = "\<lparr> Set = now, Expires = time_Add now timeout, Bits = bits \<rparr>"
  obtain rest where r: "ll (lru_Add key ?e c) = (key, ?e) # rest"
    using lru_Add_front [OF assms(1)] by blast
  have "lru_Add key ?e c = c\<lparr> ll := (key, ?e) # rest \<rparr>"
    using r lru_Add_MaxEntries [of key ?e c] by (intro lru.equality) simp_all
  with assms(2) show ?thesis
    by (auto simp: Cache_Set_def)
qed

text \<open>
  C4. For every key, every value that the codec encodes and decodes back, and every TTL
  \<open>d > 0\<close>: \<open>Set\<close> at the clock reading \<open>now\<close>, followed by a \<open>Get\<close> whose clock
  reading has not passed \<open>now + d\<close>, succeeds: \<open>Get\<close> decodes the value into \<open>val\<close> and
  returns the stored time, which is the reading of the clock that \<open>Set\<close> took. The store
  has a capacity that is not negative.
\<close>

theorem Cache_Set_then_Get:
  assumes "0 \<le> MaxEntries c"
    and "enc cd v = Inr bits"
    and "gzip_NewReader cd bits = Inr stream"
    and "gob_Decode cd stream out = Inr v"
    and "0 < d"
    and "now' \<le> time_Add now d"
  shows "\<exists>c1 c2. Cache_Set cd now k v d c = Inr c1
           \<and> Cache_Get cd now' k out c1 = (Got now v, c2)"
proof -
  let ?e = "\<lparr> Set = now, Expires = time_Add now d, Bits = bits \<rparr>"
  obtain rest where s: "Cache_Set cd now k v d c = Inr (c\<lparr> ll := (k, ?e) # rest \<rparr>)"
    using Cache_Set_stores [OF assms(1,2)] by blast
  let ?c1 = "c\<lparr> ll := (k, ?e) # rest \<rparr>"
  have g: "lru_Get k ?c1 = (Some ?e, ?c1\<lparr> ll := (k, ?e) # filter (\<lambda>e. fst e \<noteq> k) rest \<rparr>)"
    by (rule lru_Get_front) simp
  have fresh: "\<not> 0 < time_Sub now' (time_Add now d)"
    using assms(6) by (simp add: time_Sub_pos)
  have "Cache_Get cd now' k out ?c1
          = (Got now v, ?c1\<lparr> ll := (k, ?e) # filter (\<lambda>e. fst e \<noteq> k) rest \<rparr>)"
    unfolding Cache_Get_def g using fresh assms(3,4) by simp
  with s show ?thesis by blast
qed

theorem Cache_Set_then_Get_witness:
  "\<exists>c1 c2. Cache_Set plain_codec 1000 ''page'' [1, 2, 3] 5 (NewCache 2) = Inr c1
     \<and> Cache_Get plain_codec 1001 ''page'' [] c1 = (Got 1000 [1, 2, 3], c2)"
proof -
  have cap: "0 \<le> MaxEntries (NewCache 2)"
    by (simp add: NewCache_def lru_New_def)
  have e: "enc plain_codec [1, 2, 3] = Inr [1, 2, 3]"
    by (simp add: enc_def plain_codec_def)
  have r: "gzip_NewReader plain_codec [1, 2, 3] = Inr [1, 2, 3]"
    by (simp add: plain_codec_def)
  have d: "gob_Decode plain_codec [1, 2, 3] [] = Inr [1, 2, 3]"
    by (simp add: plain_codec_def)
  have pos: "(0::int) < 5" by simp
  have t: "(1001::int) \<le> time_Add 1000 5" by (simp add: time_Add_def)
  show ?thesis
    by (rule Cache_Set_then_Get [OF cap e r d pos t])
qed

text \<open>
  C5. For every key stored with TTL \<open>d\<close> in a store whose capacity is not negative: a
  \<open>Get\<close> whose clock reading is past \<open>now + d\<close> returns the expired error and leaves a
  store without the key, and a \<open>Get\<close> after it, at any time, returns the not-found error.
\<close>

theorem Cache_Get_after_expiry:
  assumes "0 \<le> MaxEntries c"
    and "enc cd v = Inr bits"
    and "time_Add now d < now'"
  shows "\<exists>c1 c2. Cache_Set cd now k v d c = Inr c1
           \<and> Cache_Get cd now' k out c1 = (Failed expired, c2)
           \<and> map_of (ll c2) k = None
           \<and> Cache_Get cd now'' k out c2 = (Failed errNotFound, c2)"
proof -
  let ?e = "\<lparr> Set = now, Expires = time_Add now d, Bits = bits \<rparr>"
  obtain rest where s: "Cache_Set cd now k v d c = Inr (c\<lparr> ll := (k, ?e) # rest \<rparr>)"
    using Cache_Set_stores [OF assms(1,2)] by blast
  let ?c1 = "c\<lparr> ll := (k, ?e) # rest \<rparr>"
  let ?c2 = "c\<lparr> ll := filter (\<lambda>e. fst e \<noteq> k) rest \<rparr>"
  have g: "lru_Get k ?c1 = (Some ?e, ?c1\<lparr> ll := (k, ?e) # filter (\<lambda>e. fst e \<noteq> k) rest \<rparr>)"
    by (rule lru_Get_front) simp
  have stale: "0 < time_Sub now' (time_Add now d)"
    using assms(3) by (simp add: time_Sub_pos)
  have first: "Cache_Get cd now' k out ?c1 = (Failed expired, ?c2)"
    unfolding Cache_Get_def g using stale by (simp add: lru_Remove_def)
  have gone: "map_of (ll ?c2) k = None"
    by (simp add: map_of_filter_other)
  have second: "Cache_Get cd now'' k out ?c2 = (Failed errNotFound, ?c2)"
    using gone by (rule Cache_Get_absent)
  from s first gone second show ?thesis by blast
qed

theorem Cache_Get_after_expiry_witness:
  "\<exists>c1 c2. Cache_Set plain_codec 1000 ''page'' [1, 2, 3] 5 (NewCache 2) = Inr c1
     \<and> Cache_Get plain_codec 1006 ''page'' [] c1 = (Failed expired, c2)
     \<and> map_of (ll c2) ''page'' = None
     \<and> Cache_Get plain_codec 1007 ''page'' [] c2 = (Failed errNotFound, c2)"
proof -
  have cap: "0 \<le> MaxEntries (NewCache 2)"
    by (simp add: NewCache_def lru_New_def)
  have e: "enc plain_codec [1, 2, 3] = Inr [1, 2, 3]"
    by (simp add: enc_def plain_codec_def)
  have t: "time_Add 1000 5 < (1006::int)" by (simp add: time_Add_def)
  show ?thesis
    by (rule Cache_Get_after_expiry [OF cap e t])
qed

text \<open>
  C6. The claim: for every key, value and timeout passed to \<open>Cache.Set\<close>, the stored
  \<open>expiringBits\<close> has \<open>Expires\<close> strictly greater than \<open>Set\<close>. \<open>Set\<close> takes any
  \<open>time.Duration\<close> and computes \<open>Expires\<close> as \<open>now.Add(timeout)\<close>: with a timeout of
  zero the stored record has \<open>Expires\<close> equal to \<open>Set\<close>.
\<close>

theorem Cache_Set_zero_timeout_counterexample:
  "Cache_Set plain_codec 1000 ''page'' [1, 2, 3] 0 (NewCache 2)
     = Inr \<lparr> MaxEntries = 2,
             ll = [(''page'', \<lparr> Set = 1000, Expires = 1000, Bits = [1, 2, 3] \<rparr>)] \<rparr>
   \<and> \<not> Set \<lparr> Set = 1000, Expires = 1000, Bits = [1, 2, 3] \<rparr>
         < Expires \<lparr> Set = 1000, Expires = 1000, Bits = [1, 2, 3] \<rparr>"
  by (simp add: Cache_Set_def enc_def plain_codec_def NewCache_def lru_New_def lru_Add_def
      time_Add_def)

text \<open>
  C6, amended. For every key, every value that the codec encodes and every timeout passed
  to \<open>Cache.Set\<close> on a store whose capacity is not negative, the stored record has
  \<open>Set\<close> equal to the clock reading and \<open>Expires\<close> equal to that reading plus the
  timeout: \<open>Expires\<close> is strictly greater than \<open>Set\<close> when the timeout is greater than
  zero, and \<open>Expires\<close> is at most \<open>Set\<close> when the timeout is zero or negative. With a
  timeout greater than zero, if every entry of the store had \<open>Expires\<close> greater than
  \<open>Set\<close> before the call, every entry has after it.
\<close>

theorem Cache_Set_expiry_follows_timeout:
  assumes "0 \<le> MaxEntries c"
    and "enc cd val = Inr bits"
  shows "\<exists>c' e. Cache_Set cd now key val timeout c = Inr c'
           \<and> map_of (ll c') key = Some e
           \<and> Set e = now \<and> Expires e = time_Add now timeout
           \<and> (0 < timeout \<longrightarrow> Set e < Expires e)
           \<and> (timeout \<le> 0 \<longrightarrow> Expires e \<le> Set e)
           \<and> (0 < timeout \<and> expires_after_set c \<longrightarrow> expires_after_set c')"
proof -
  let ?e = "\<lparr> Set = now, Expires = time_Add now timeout, Bits = bits \<rparr>"
  have s: "Cache_Set cd now key val timeout c = Inr (lru_Add key ?e c)"
    using assms(2) by (simp add: Cache_Set_def)
  obtain rest where r: "ll (lru_Add key ?e c) = (key, ?e) # rest"
    using lru_Add_front [OF assms(1)] by blast
  then have m: "map_of (ll (lru_Add key ?e c)) key = Some ?e" by simp
  have lt: "Set ?e < Expires ?e" if "0 < timeout"
    using that by (simp add: time_Add_def)
  have ge: "Expires ?e \<le> Set ?e" if "timeout \<le> 0"
    using that by (simp add: time_Add_def)
  have inv: "expires_after_set (lru_Add key ?e c)" if pos: "0 < timeout" and old: "expires_after_set c"
  proof -
    have "Set e < Expires e" if "(k, e) \<in> set (ll (lru_Add key ?e c))" for k e
    proof -
      from that lru_Add_entries [of key ?e c]
      have "(k, e) = (key, ?e) \<or> (k, e) \<in> set (ll c)" by auto
      then show ?thesis
      proof
        assume "(k, e) = (key, ?e)"
        with lt [OF pos] show ?thesis by simp
      next
        assume "(k, e) \<in> set (ll c)"
        with old show ?thesis
          by (auto simp: expires_after_set_def list_all_iff)
      qed
    qed
    then show ?thesis
      by (auto simp: expires_after_set_def list_all_iff)
  qed
  have "Cache_Set cd now key val timeout c = Inr (lru_Add key ?e c)
      \<and> map_of (ll (lru_Add key ?e c)) key = Some ?e
      \<and> Set ?e = now \<and> Expires ?e = time_Add now timeout
      \<and> (0 < timeout \<longrightarrow> Set ?e < Expires ?e)
      \<and> (timeout \<le> 0 \<longrightarrow> Expires ?e \<le> Set ?e)
      \<and> (0 < timeout \<and> expires_after_set c \<longrightarrow> expires_after_set (lru_Add key ?e c))"
    using s m lt ge inv by simp
  then show ?thesis by blast
qed

theorem Cache_Set_expiry_follows_timeout_witness:
  "(\<exists>c' e. Cache_Set plain_codec 1000 ''page'' [1, 2, 3] 5 (NewCache 2) = Inr c'
      \<and> map_of (ll c') ''page'' = Some e
      \<and> Set e = 1000 \<and> Expires e = 1005 \<and> Set e < Expires e
      \<and> expires_after_set (NewCache 2) \<and> expires_after_set c')
   \<and> (\<exists>c' e. Cache_Set plain_codec 1000 ''page'' [1, 2, 3] (- 3) (NewCache 2) = Inr c'
      \<and> map_of (ll c') ''page'' = Some e
      \<and> Set e = 1000 \<and> Expires e = 997 \<and> Expires e \<le> Set e)"
proof -
  have cap: "0 \<le> MaxEntries (NewCache 2)"
    by (simp add: NewCache_def lru_New_def)
  have e: "enc plain_codec [1, 2, 3] = Inr [1, 2, 3]"
    by (simp add: enc_def plain_codec_def)
  have inv: "expires_after_set (NewCache 2)"
    by (simp add: expires_after_set_def NewCache_def lru_New_def)
  have pos: "\<exists>c' e. Cache_Set plain_codec 1000 ''page'' [1, 2, 3] 5 (NewCache 2) = Inr c'
      \<and> map_of (ll c') ''page'' = Some e
      \<and> Set e = 1000 \<and> Expires e = 1005 \<and> Set e < Expires e
      \<and> expires_after_set (NewCache 2) \<and> expires_after_set c'"
    using Cache_Set_expiry_follows_timeout [OF cap e, of 1000 "''page''" 5] inv
    by (auto simp: time_Add_def)
  have neg: "\<exists>c' e. Cache_Set plain_codec 1000 ''page'' [1, 2, 3] (- 3) (NewCache 2) = Inr c'
      \<and> map_of (ll c') ''page'' = Some e
      \<and> Set e = 1000 \<and> Expires e = 997 \<and> Expires e \<le> Set e"
    using Cache_Set_expiry_follows_timeout [OF cap e, of 1000 "''page''" "- 3"]
    by (auto simp: time_Add_def)
  from pos neg show ?thesis by blast
qed

section \<open>Properties of the media URLs\<close>

lemma opaque_loop_result:
  assumes "opaque_loop env key urls i imgs g = (Inr out, g')"
    and "i + length urls \<le> length imgs"
  shows "length out = length imgs
         \<and> (\<forall>j<i. out ! j = imgs ! j)
         \<and> (\<forall>j<length urls. \<exists>g0 p. out ! (i + j) = Some p
               \<and> url_Parse env (''/images/'' @ fst (Opaque env g0 (url_String env (urls ! j)) key)) = Inr p)"
  using assms
proof (induction urls arbitrary: i imgs g)
  case Nil
  then show ?case by simp
next
  case (Cons u urls)
  obtain tok g1 where o: "Opaque env g (url_String env u) key = (tok, g1)"
    by (cases "Opaque env g (url_String env u) key")
  from Cons.prems(1) o obtain p where
    p: "url_Parse env (''/images/'' @ tok) = Inr p"
    and rec: "opaque_loop env key urls (i + 1) (imgs[i := Some p]) g1 = (Inr out, g')"
    by (auto split: sum.splits)
  from Cons.prems(2) have len: "(i + 1) + length urls \<le> length (imgs[i := Some p])" by simp
  note ih = Cons.IH [OF rec len]
  from ih have l: "length out = length imgs" by simp
  from ih have before: "\<forall>j<i + 1. out ! j = imgs[i := Some p] ! j" by blast
  from ih have after: "\<forall>j<length urls. \<exists>g0 q. out ! (i + 1 + j) = Some q
      \<and> url_Parse env (''/images/'' @ fst (Opaque env g0 (url_String env (urls ! j)) key)) = Inr q"
    by blast
  have here: "out ! i = Some p"
    using before Cons.prems(2) by simp
  have keep: "\<forall>j<i. out ! j = imgs ! j"
    using before by simp
  have each: "\<exists>g0 q. out ! (i + j) = Some q
      \<and> url_Parse env (''/images/'' @ fst (Opaque env g0 (url_String env ((u # urls) ! j)) key)) = Inr q"
    if "j < length (u # urls)" for j
  proof (cases j)
    case 0
    with here p o show ?thesis
      by (metis add.right_neutral fst_conv nth_Cons_0)
  next
    case (Suc k)
    with that have "k < length urls" by simp
    with after Suc show ?thesis by simp
  qed
  from l keep each show ?case by blast
qed

lemma opaque_loop_succeeds:
  assumes "\<forall>g m. \<exists>p. url_Parse env (''/images/'' @ fst (Opaque env g m key)) = Inr p"
  shows "\<exists>out g'. opaque_loop env key urls i imgs g = (Inr out, g')"
proof (induction urls arbitrary: i imgs g)
  case Nil
  show ?case by simp
next
  case (Cons u urls)
  obtain tok g1 where o: "Opaque env g (url_String env u) key = (tok, g1)"
    by (cases "Opaque env g (url_String env u) key")
  from assms obtain p where "url_Parse env (''/images/'' @ fst (Opaque env g (url_String env u) key)) = Inr p"
    by blast
  with o have p: "url_Parse env (''/images/'' @ tok) = Inr p" by simp
  from Cons.IH [of "i + 1" "imgs[i := Some p]" g1] o p show ?case by simp
qed

text \<open>
  C3. For every user permitted to view media and every successful upstream fetch of the
  media URLs, \<open>GetMediaURLs\<close> returns a slice as long as the upstream's list, after one
  upstream request, and its element at each index is no nil pointer and no upstream link: it
  is the URL that \<open>url.Parse\<close> makes of the path \<open>/images/\<close> followed by a token, and the
  token is what \<open>services.Opaque\<close> returns for the upstream URL at that index under the
  secret key. Sealed tokens are URL-safe: \<open>url.Parse\<close> accepts every such path.
\<close>

theorem GetMediaURLs_sealed_paths:
  assumes "CanViewMedia u"
    and "Messages_GetMediaURLs env sid mediaUrlsFilters = Inr urls"
    and "\<forall>g m. \<exists>p. url_Parse env (''/images/'' @ fst (Opaque env g m key)) = Inr p"
  shows "\<exists>out g'. GetMediaURLs env key g u sid = (Inr out, [Call_GetMediaURLs sid mediaUrlsFilters], g')
           \<and> length out = length urls
           \<and> (\<forall>i<length urls. \<exists>g0 p. out ! i = Some p
                 \<and> url_Parse env (''/images/'' @ fst (Opaque env g0 (url_String env (urls ! i)) key)) = Inr p)"
proof -
  obtain out g' where
    loop: "opaque_loop env key urls 0 (replicate (length urls) None) g = (Inr out, g')"
    using opaque_loop_succeeds [OF assms(3)] by blast
  have fits: "0 + length urls \<le> length (replicate (length urls) (None :: 'a option))" by simp
  from opaque_loop_result [OF loop fits]
  have res: "length out = length urls
      \<and> (\<forall>i<length urls. \<exists>g0 p. out ! i = Some p
            \<and> url_Parse env (''/images/'' @ fst (Opaque env g0 (url_String env (urls ! i)) key)) = Inr p)"
    by simp
  have "GetMediaURLs env key g u sid = (Inr out, [Call_GetMediaURLs sid mediaUrlsFilters], g')"
    using assms(1,2) loop by (simp add: GetMediaURLs_def)
  with res show ?thesis by blast
qed

theorem GetMediaURLs_sealed_paths_witness:
  "\<exists>out g'. GetMediaURLs demo_views_env demo_key 0 eng ''MM1''
       = (Inr out, [Call_GetMediaURLs ''MM1'' mediaUrlsFilters], g')
     \<and> length out = length [''https://api.twilio.com/Media/ME1'', ''https://api.twilio.com/Media/ME2'']
     \<and> out ! 0 = Some ''/images/ok:https://api.twilio.com/Media/ME1''
     \<and> out ! 1 = Some ''/images/ok:https://api.twilio.com/Media/ME2''"
proof -
  let ?urls = "[''https://api.twilio.com/Media/ME1'', ''https://api.twilio.com/Media/ME2'']"
  have can: "CanViewMedia eng" by (simp add: eng_def)
  have up: "Messages_GetMediaURLs demo_views_env ''MM1'' mediaUrlsFilters = Inr ?urls"
    by (simp add: demo_views_env_def)
  have safe: "\<forall>g m. \<exists>p. url_Parse demo_views_env
      (''/images/'' @ fst (Opaque demo_views_env g m demo_key)) = Inr p"
    by (simp add: demo_views_env_def)
  from GetMediaURLs_sealed_paths [OF can up safe, of 0]
  obtain out g' where
    r: "GetMediaURLs demo_views_env demo_key 0 eng ''MM1''
          = (Inr out, [Call_GetMediaURLs ''MM1'' mediaUrlsFilters], g')"
    and l: "length out = length ?urls"
    and e: "\<forall>i<length ?urls. \<exists>g0 p. out ! i = Some p
          \<and> url_Parse demo_views_env
              (''/images/'' @ fst (Opaque demo_views_env g0 (url_String demo_views_env (?urls ! i)) demo_key))
            = Inr p"
    by blast
  have e0: "out ! 0 = Some ''/images/ok:https://api.twilio.com/Media/ME1''"
    using e [rule_format, of 0] by (auto simp: demo_views_env_def)
  have e1: "out ! 1 = Some ''/images/ok:https://api.twilio.com/Media/ME2''"
    using e [rule_format, of 1] by (auto simp: demo_views_env_def)
  from r l e0 e1 show ?thesis by blast
qed

section \<open>Properties of the alert list handler\<close>

lemma status_code_renderError: "status_code (renderError env s r code query err) = code"
  by (simp add: renderError_def Let_def)

lemma serve_page_NoMoreResults:
  "\<exists>bd g2. serve_page env s clock g r u query st en nxt (Inl NoMoreResults) = (Rendered 200 bd, [], g2)
      \<and> Page (Data bd) = new_AlertPage \<and> Err (Data bd) = ''''"
  by (simp add: serve_page_def new_AlertPage_def Let_def split: prod.splits)

lemma ServeHTTP_calls:
  assumes "ServeHTTP env s clock g r = (resp, calls, g')" and "calls \<noteq> []"
  shows "\<exists>u st en q nxt rest.
           serve_page env s clock g r u q st en nxt (answer (Client s) (hd calls)) = (resp, rest, g')
           \<and> calls = hd calls # rest"
  using assms
  by (auto simp: ServeHTTP_def Let_def split: option.splits if_splits sum.splits prod.splits) blast+

lemma ServeHTTP_bad_token:
  assumes "GetUser env r = Some u" and "CanViewAlerts u"
    and "getTimes env r ''alert-start'' ''alert-end'' (LocationFinder s r) (URL_Query r) = Inr (st, en)"
    and "(\<exists>e. getNext env (URL_Query r) (secretKey s) = Inl e)
           \<or> (\<exists>c. getNext env (URL_Query r) (secretKey s) = Inr c \<and> c \<noteq> ''''
                 \<and> \<not> prefix (MonitorBaseURL env) c)"
  shows "\<exists>msg. ServeHTTP env s clock g r
           = (renderError env s r StatusBadRequest (URL_Query r) (ErrorString msg), [], g)"
  using assms by (auto simp: ServeHTTP_def Let_def)

lemma ServeHTTP_turned_away:
  assumes "GetUser env r = None \<or> (\<exists>u. GetUser env r = Some u \<and> \<not> CanViewAlerts u)
           \<or> (\<exists>w. getTimes env r ''alert-start'' ''alert-end'' (LocationFinder s r) (URL_Query r) = Inl w)"
  shows "fst (snd (ServeHTTP env s clock g r)) = []"
  using assms by (auto simp: ServeHTTP_def Let_def split: option.splits)

text \<open>
  C1. The claim: for every inbound page request carrying a \<open>next\<close> parameter, if opening
  the token fails, or if it opens to a cleartext that does not begin with the monitor base
  URL, the request fails with the invalid-token error (HTTP 400) and no upstream call is made.
  The handler checks the user before it looks at the token: the request of a user who may not
  view alerts is answered with 403 whatever its token. And it takes an empty cleartext for the
  absence of a token: a token that opens to the empty string, which has no base URL at its
  start, is served as a first page, with an upstream call.
\<close>

theorem bad_token_counterexample:
  "getNext demo_env (URL_Query (demo_request ''support'' (Some ''garbage''))) (secretKey demo_server)
     = Inl (ErrorString ''invalid token'')
   \<and> status_code (fst (ServeHTTP demo_env demo_server (\<lambda>n. 72 * Hour) 0
        (demo_request ''support'' (Some ''garbage'')))) = 403
   \<and> getNext demo_env (URL_Query (demo_request ''eng'' (Some ''ok:''))) (secretKey demo_server)
     = Inr ''''
   \<and> prefix (MonitorBaseURL demo_env) '''' = False
   \<and> status_code (fst (ServeHTTP demo_env demo_server (\<lambda>n. 72 * Hour) 0
        (demo_request ''eng'' (Some ''ok:'')))) = 200
   \<and> length (fst (snd (ServeHTTP demo_env demo_server (\<lambda>n. 72 * Hour) 0
        (demo_request ''eng'' (Some ''ok:''))))) = 1"
  by (simp add: ServeHTTP_def serve_page_def demo_env_def demo_server_def demo_request_def
      demo_open_def demo_page_def eng_def support_def Let_def)

text \<open>
  C1, amended. For every inbound page request, if opening the token fails, or if it opens to
  a non-empty cleartext that does not begin with the monitor base URL, no upstream call is
  made; and when the request comes from a user who may view alerts and its time bounds are
  accepted, it fails with the invalid-token error: status 400, from \<open>renderError\<close>.
\<close>

theorem bad_token_is_bad_request:
  assumes "(\<exists>e. getNext env (URL_Query r) (secretKey s) = Inl e)
           \<or> (\<exists>c. getNext env (URL_Query r) (secretKey s) = Inr c \<and> c \<noteq> ''''
                 \<and> \<not> prefix (MonitorBaseURL env) c)"
  shows "fst (snd (ServeHTTP env s clock g r)) = []
         \<and> (\<forall>u st en. GetUser env r = Some u \<and> CanViewAlerts u
               \<and> getTimes env r ''alert-start'' ''alert-end'' (LocationFinder s r) (URL_Query r) = Inr (st, en)
             \<longrightarrow> status_code (fst (ServeHTTP env s clock g r)) = 400
               \<and> (\<exists>msg. fst (ServeHTTP env s clock g r)
                     = renderError env s r StatusBadRequest (URL_Query r) (ErrorString msg)))"
proof (intro conjI allI impI)
  show "fst (snd (ServeHTTP env s clock g r)) = []"
  proof (cases "\<exists>u st en. GetUser env r = Some u \<and> CanViewAlerts u
      \<and> getTimes env r ''alert-start'' ''alert-end'' (LocationFinder s r) (URL_Query r) = Inr (st, en)")
    case True
    then obtain u st en where "GetUser env r = Some u" "CanViewAlerts u"
      "getTimes env r ''alert-start'' ''alert-end'' (LocationFinder s r) (URL_Query r) = Inr (st, en)"
      by blast
    from ServeHTTP_bad_token [OF this assms, of clock g] show ?thesis by auto
  next
    case False
    have "GetUser env r = None \<or> (\<exists>u. GetUser env r = Some u \<and> \<not> CanViewAlerts u)
        \<or> (\<exists>w. getTimes env r ''alert-start'' ''alert-end'' (LocationFinder s r) (URL_Query r) = Inl w)"
    proof (cases "getTimes env r ''alert-start'' ''alert-end'' (LocationFinder s r) (URL_Query r)")
      case (Inl w)
      then show ?thesis by blast
    next
      case (Inr p)
      with False show ?thesis by (cases p; cases "GetUser env r") auto
    qed
    then show ?thesis by (rule ServeHTTP_turned_away)
  qed
next
  fix u st en
  assume ok: "GetUser env r = Some u \<and> CanViewAlerts u
      \<and> getTimes env r ''alert-start'' ''alert-end'' (LocationFinder s r) (URL_Query r) = Inr (st, en)"
  then have a: "GetUser env r = Some u" and b: "CanViewAlerts u"
    and c: "getTimes env r ''alert-start'' ''alert-end'' (LocationFinder s r) (URL_Query r) = Inr (st, en)"
    by simp_all
  from ServeHTTP_bad_token [OF a b c assms, of clock g] obtain msg where
    m: "ServeHTTP env s clock g r
          = (renderError env s r StatusBadRequest (URL_Query r) (ErrorString msg), [], g)"
    by blast
  then show "status_code (fst (ServeHTTP env s clock g r)) = 400"
    by (simp add: status_code_renderError StatusBadRequest_def)
  from m show "\<exists>msg. fst (ServeHTTP env s clock g r)
      = renderError env s r StatusBadRequest (URL_Query r) (ErrorString msg)"
    by auto
qed

theorem bad_token_is_bad_request_witness:
  "fst (snd (ServeHTTP demo_env demo_server (\<lambda>n. 72 * Hour) 0
       (demo_request ''eng'' (Some ''ok:https://evil.example.com'')))) = []
   \<and> status_code (fst (ServeHTTP demo_env demo_server (\<lambda>n. 72 * Hour) 0
       (demo_request ''eng'' (Some ''ok:https://evil.example.com'')))) = 400"
proof -
  let ?r = "demo_request ''eng'' (Some ''ok:https://evil.example.com'')"
  have n: "getNext demo_env (URL_Query ?r) (secretKey demo_server) = Inr ''https://evil.example.com''"
    by (simp add: demo_env_def demo_request_def demo_open_def)
  have p: "\<not> prefix (MonitorBaseURL demo_env) ''https://evil.example.com''"
    by (simp add: demo_env_def)
  have bad: "(\<exists>e. getNext demo_env (URL_Query ?r) (secretKey demo_server) = Inl e)
      \<or> (\<exists>c. getNext demo_env (URL_Query ?r) (secretKey demo_server) = Inr c \<and> c \<noteq> ''''
            \<and> \<not> prefix (MonitorBaseURL demo_env) c)"
    using n p by simp
  have u: "GetUser demo_env ?r = Some eng"
    by (simp add: demo_env_def demo_request_def)
  have v: "CanViewAlerts eng" by (simp add: eng_def)
  have t: "getTimes demo_env ?r ''alert-start'' ''alert-end'' (LocationFinder demo_server ?r) (URL_Query ?r)
      = Inr (0, 72 * Hour)"
    by (simp add: demo_env_def)
  from bad_token_is_bad_request [OF bad, of "\<lambda>n. 72 * Hour" 0] u v t
  show ?thesis by blast
qed

text \<open>
  C2. The claim: for every user whose capability set forbids a resource kind, the
  corresponding fetch operation fails with a locally synthesized PermissionDenied before any
  upstream request is issued; \<open>GetMediaURLs\<close> and the alert list handler are its two
  instances. The other fetch operations of the views client ask the upstream API first and
  hand its answer, with the user, to the constructor of the view: \<open>GetCall\<close> calls
  \<open>Calls.Get\<close> before \<open>NewCall\<close> sees the user. For a user who may not view calls the
  permission error comes after the upstream request.
\<close>

theorem GetCall_asks_upstream_first_counterexample:
  "CanViewCalls support = False
   \<and> GetCall demo_calls_env () support ''CA1'' = (Inl PermissionDenied, [Call_Calls_Get ''CA1''])"
  by (simp add: GetCall_def demo_calls_env_def support_def)

text \<open>
  C2, amended. For every user who cannot view media, \<open>GetMediaURLs\<close> returns
  \<open>config.PermissionDenied\<close>, and for every user who cannot view alerts the alert list
  handler answers Forbidden (status 403, access denied); in both cases the failure is made
  locally, with no request to the upstream client.
\<close>

theorem forbidden_kinds_denied_locally:
  "(CanViewMedia u = False \<longrightarrow> GetMediaURLs venv key g u sid = (Inl PermissionDenied, [], g))
   \<and> (GetUser env r = Some u \<and> \<not> CanViewAlerts u
        \<longrightarrow> ServeHTTP env s clock g2 r = (Forbidden ''Access denied'', [], g2)
          \<and> status_code (fst (ServeHTTP env s clock g2 r)) = 403)"
  by (simp add: GetMediaURLs_def ServeHTTP_def)

theorem forbidden_kinds_denied_locally_witness:
  "GetMediaURLs demo_views_env demo_key 0 support ''MM1'' = (Inl PermissionDenied, [], 0)
   \<and> ServeHTTP demo_env demo_server (\<lambda>n. 72 * Hour) 0 (demo_request ''support'' None)
       = (Forbidden ''Access denied'', [], 0)"
proof -
  have m: "CanViewMedia support = False" by (simp add: support_def)
  have a: "GetUser demo_env (demo_request ''support'' None) = Some support \<and> \<not> CanViewAlerts support"
    by (simp add: demo_env_def demo_request_def support_def)
  from forbidden_kinds_denied_locally [of support demo_views_env demo_key 0 "''MM1''" demo_env
      "demo_request ''support'' None" demo_server "\<lambda>n. 72 * Hour" 0] m a
  show ?thesis by blast
qed

text \<open>
  C7. For every page request, when the upstream client answers the request's call with
  \<open>twilio.NoMoreResults\<close>, the request is served with status 200, an empty page and no
  error message, and no further upstream call is made.
\<close>

theorem NoMoreResults_served_as_empty_page:
  assumes "ServeHTTP env s clock g r = (resp, calls, g')"
    and "calls \<noteq> []"
    and "answer (Client s) (hd calls) = Inl NoMoreResults"
  shows "\<exists>bd. resp = Rendered 200 bd \<and> status_code resp = 200
           \<and> Page (Data bd) = new_AlertPage \<and> Err (Data bd) = '''' \<and> calls = [hd calls]"
proof -
  from ServeHTTP_calls [OF assms(1,2)] assms(3) obtain u st en q nxt rest where
    sp: "serve_page env s clock g r u q st en nxt (Inl NoMoreResults) = (resp, rest, g')"
    and c: "calls = hd calls # rest"
    by auto
  from serve_page_NoMoreResults [of env s clock g r u q st en nxt] sp
  obtain bd where "resp = Rendered 200 bd" "rest = []" "Page (Data bd) = new_AlertPage"
    "Err (Data bd) = ''''"
    by auto
  with c show ?thesis by auto
qed

theorem NoMoreResults_served_as_empty_page_witness:
  "\<exists>bd. fst (ServeHTTP demo_env demo_server (\<lambda>n. 72 * Hour) 0
         (demo_request ''eng'' (Some ''ok:https://monitor.twilio.com/v1/Alerts?Page=1'')))
       = Rendered 200 bd
     \<and> Page (Data bd) = new_AlertPage \<and> Err (Data bd) = ''''"
proof -
  let ?r = "demo_request ''eng'' (Some ''ok:https://monitor.twilio.com/v1/Alerts?Page=1'')"
  let ?call = "Call_GetNextAlertPageInRange RequestCtx eng 0 (72 * Hour)
                 ''https://monitor.twilio.com/v1/Alerts?Page=1''"
  obtain resp calls g' where
    run: "ServeHTTP demo_env demo_server (\<lambda>n. 72 * Hour) 0 ?r = (resp, calls, g')"
    by (cases "ServeHTTP demo_env demo_server (\<lambda>n. 72 * Hour) (0::nat) ?r") auto
  have "fst (snd (ServeHTTP demo_env demo_server (\<lambda>n. 72 * Hour) 0 ?r)) = [?call]"
    by (simp add: ServeHTTP_def serve_page_def demo_env_def demo_server_def demo_request_def
        demo_open_def new_AlertPage_def eng_def)
  with run have calls: "calls = [?call]" by simp
  then have ne: "calls \<noteq> []" by simp
  have ans: "answer (Client demo_server) (hd calls) = Inl NoMoreResults"
    unfolding calls by (simp add: demo_server_def)
  from NoMoreResults_served_as_empty_page [OF run ne ans] run
  show ?thesis by auto
qed

text \<open>
  C8. The claim: a first-page request carries frequency buckets for exactly the windows
  5 minutes, 1 hour, 1 day and 3 days, each counting the fetched alerts created within that
  window of the current time. The handler builds the bucket named \<open>3 days\<close> with the window
  \<open>24 * time.Hour\<close>, that of the bucket \<open>day\<close>. On the first page of the instance, whose
  one alert is two days old at the time of the request, the bucket \<open>3 days\<close> has a window of
  one day and counts no alert.
\<close>

theorem three_days_bucket_has_one_day_window:
  "\<exists>bd calls g'.
     ServeHTTP demo_env demo_server (\<lambda>n. 72 * Hour) 0 (demo_request ''eng'' None)
       = (Rendered 200 bd, calls, g')
     \<and> map (\<lambda>f. (Name f, Since f, Count f)) (Freq (Data bd))
         = [(''5 minutes'', 5 * Minute, 0), (''hour'', Hour, 0),
            (''day'', 24 * Hour, 0), (''3 days'', 24 * Hour, 0)]
     \<and> map (\<lambda>a. map_sum id (\<lambda>t. time_Sub (72 * Hour) (Time t)) (DateCreated a)) (Alerts (Page (Data bd)))
         = [Inr (48 * Hour)]"
  by (simp add: ServeHTTP_def serve_page_def demo_env_def demo_server_def demo_request_def
      demo_open_def demo_page_def eng_def Let_def getAlertFrequency_def time_Sub_def
      minDuration_def maxDuration_def Hour_def Minute_def)

end
